theory Spec2Isabelle
  imports Complex_Main "HOL-Library.Sublist"
begin

section \<open>JavaScript values as server.js sees them\<close>

text \<open>
  Every value the relay inspects comes out of \<^verbatim>\<open>JSON.parse\<close> (a request body, a provider
  response) or is \<^verbatim>\<open>undefined\<close> (a property that is not there). A number is held by
  its value; it only ever matters through its truthiness (is it zero) and, inside a
  template literal, through its decimal text, which the runtime supplies. An object is the
  list of its own properties, each key once.
\<close>

datatype js =
    JUndef
  | JNull
  | JBool bool
  | JNum rat
  | JStr string
  | JArr "js list"
  | JObj "(string \<times> js) list"

text \<open>What was thrown: \<^verbatim>\<open>new Error(msg)\<close> of server.js itself, or a runtime exception.\<close>

datatype exn =
    Error string
  | TypeError
  | FetchError
  | SyntaxError

fun truthy :: "js \<Rightarrow> bool" where
  "truthy JUndef = False"
| "truthy JNull = False"
| "truthy (JBool b) = b"
| "truthy (JNum n) = (n \<noteq> 0)"
| "truthy (JStr s) = (s \<noteq> [])"
| "truthy (JArr xs) = True"
| "truthy (JObj kvs) = True"

text \<open>\<^verbatim>\<open>a || b\<close>\<close>

definition or_js :: "js \<Rightarrow> js \<Rightarrow> js" where
  "or_js a b = (if truthy a then a else b)"

fun nullish :: "js \<Rightarrow> bool" where
  "nullish JUndef = True"
| "nullish JNull = True"
| "nullish v = False"

text \<open>
  \<^verbatim>\<open>v?.k\<close>: \<^verbatim>\<open>undefined\<close> on \<^verbatim>\<open>null\<close> and \<^verbatim>\<open>undefined\<close>, the property otherwise. The
  property names server.js reads are data, status, generated, length, 0, url, image_url,
  imageUrl, src, task_id, prompt and aspect_ratio; of these only \<^verbatim>\<open>length\<close> and the
  index \<^verbatim>\<open>0\<close> exist on arrays and strings, and none on numbers and booleans.
\<close>

fun opt_member :: "js \<Rightarrow> string \<Rightarrow> js" where
  "opt_member JUndef k = JUndef"
| "opt_member JNull k = JUndef"
| "opt_member (JBool b) k = JUndef"
| "opt_member (JNum n) k = JUndef"
| "opt_member (JStr s) k =
     (if k = ''length'' then JNum (of_nat (length s))
      else if k = ''0'' then (case s of [] \<Rightarrow> JUndef | c # _ \<Rightarrow> JStr [c])
      else JUndef)"
| "opt_member (JArr xs) k =
     (if k = ''length'' then JNum (of_nat (length xs))
      else if k = ''0'' then (case xs of [] \<Rightarrow> JUndef | x # _ \<Rightarrow> x)
      else JUndef)"
| "opt_member (JObj kvs) k = (case map_of kvs k of None \<Rightarrow> JUndef | Some v \<Rightarrow> v)"

text \<open>\<^verbatim>\<open>x.substring(0, n)\<close> inside a log line: only a string has the method.\<close>

definition substring_ok :: "js \<Rightarrow> bool" where
  "substring_ok v = (case v of JStr s \<Rightarrow> True | _ \<Rightarrow> False)"

fun join_comma :: "string list \<Rightarrow> string" where
  "join_comma [] = []"
| "join_comma [s] = s"
| "join_comma (s # t # ss) = s @ '','' @ join_comma (t # ss)"

text \<open>
  ToString, as a template literal applies it to a substitution. A value from JSON has no
  callable property of its own, so an object with an own \<^verbatim>\<open>toString\<close> key has no usable
  conversion (the inherited \<^verbatim>\<open>valueOf\<close> returns the object) and the conversion throws a
  TypeError; any other object gives \<^verbatim>\<open>[object Object]\<close>. An array joins the texts of its
  elements with commas, \<^verbatim>\<open>null\<close> and \<^verbatim>\<open>undefined\<close> counting as empty, and throws where
  an element does. \<open>fmt\<close> is the runtime's Number-to-string conversion.
\<close>

fun sequence_exn :: "(exn + 'a) list \<Rightarrow> exn + 'a list" where
  "sequence_exn [] = Inr []"
| "sequence_exn (Inl e # rs) = Inl e"
| "sequence_exn (Inr x # rs) = (case sequence_exn rs of Inl e \<Rightarrow> Inl e | Inr xs \<Rightarrow> Inr (x # xs))"

fun js_to_string :: "(rat \<Rightarrow> string) \<Rightarrow> js \<Rightarrow> exn + string" where
  "js_to_string fmt JUndef = Inr ''undefined''"
| "js_to_string fmt JNull = Inr ''null''"
| "js_to_string fmt (JBool b) = Inr (if b then ''true'' else ''false'')"
| "js_to_string fmt (JNum n) = Inr (fmt n)"
| "js_to_string fmt (JStr s) = Inr s"
| "js_to_string fmt (JArr xs) =
     (case sequence_exn (map (\<lambda>x. if nullish x then Inr [] else js_to_string fmt x) xs) of
        Inl e \<Rightarrow> Inl e
      | Inr ss \<Rightarrow> Inr (join_comma ss))"
| "js_to_string fmt (JObj kvs) =
     (if map_of kvs ''toString'' = None then Inr ''[object Object]'' else Inl TypeError)"

text \<open>
  Whether ToString completes on a value; it does not depend on how numbers are printed.
  This is all that matters where the text only goes to the console.
\<close>

fun stringable :: "js \<Rightarrow> bool" where
  "stringable (JArr xs) = (\<forall>x \<in> set xs. nullish x \<or> stringable x)"
| "stringable (JObj kvs) = (map_of kvs ''toString'' = None)"
| "stringable v = True"

section \<open>The network\<close>

text \<open>
  \<^verbatim>\<open>fetch\<close> either rejects (network failure, abort) or resolves to a response: its status
  code, its body as text (\<^verbatim>\<open>text()\<close>) and its body as parsed JSON (\<^verbatim>\<open>json()\<close>, which
  rejects when the body is not JSON: \<open>None\<close>). The body is taken as fully received.
\<close>

datatype fetch_result =
    NetworkError
  | Response nat string "js option"

text \<open>A request: the URL, the x-freepik-api-key header and, for a POST, the body.\<close>

datatype request =
    GET string string
  | POST string string js

text \<open>
  The provider and the network are a deterministic world of any state type \<open>'w\<close>:
  a request is answered from the current state, which moves on.
\<close>

type_synonym 'w net = "'w \<Rightarrow> request \<Rightarrow> fetch_result \<times> 'w"

text \<open>\<^verbatim>\<open>r.ok\<close>\<close>

definition ok :: "nat \<Rightarrow> bool" where
  "ok st = (200 \<le> st \<and> st \<le> 299)"

section \<open>pollFreepikTask\<close>

definition FREEPIK_API_URL :: string where
  "FREEPIK_API_URL = ''https://api.freepik.com/v1/ai/mystic''"

definition endpoints :: "string \<Rightarrow> string list" where
  "endpoints taskId =
     [FREEPIK_API_URL @ ''/'' @ taskId,
      FREEPIK_API_URL @ ''?task_id='' @ taskId,
      ''https://api.freepik.com/v1/ai/tasks/'' @ taskId]"

text \<open>\<^verbatim>\<open>working\<close> is \<^verbatim>\<open>null\<close> or a URL; as a condition it holds for a non-empty string.\<close>

fun working_truthy :: "string option \<Rightarrow> bool" where
  "working_truthy None = False"
| "working_truthy (Some u) = (u \<noteq> [])"

text \<open>\<^verbatim>\<open>const candidates = working ? [working] : endpoints\<close>\<close>

fun candidates_of :: "string option \<Rightarrow> string list \<Rightarrow> string list" where
  "candidates_of None eps = eps"
| "candidates_of (Some u) eps = (if u \<noteq> [] then [u] else eps)"

text \<open>
  Lines 56 to 62, on \<^verbatim>\<open>data.data\<close> (truthy there): the image URL that is returned, or
  the exception that reading it throws.
\<close>

definition extract_url :: "js \<Rightarrow> exn + js" where
  "extract_url dd =
     (let generated = opt_member dd ''generated'' in
      if truthy generated \<and> truthy (opt_member generated ''length'') then
        (let image = opt_member generated ''0'' in
         if nullish image then Inl TypeError
         else
           (let imageUrl =
                  or_js (opt_member image ''url'')
                 (or_js (opt_member image ''image_url'')
                 (or_js (opt_member image ''imageUrl'')
                 (or_js (opt_member image ''src'')
                        (case image of JStr s \<Rightarrow> image | _ \<Rightarrow> JNull))))
            in if truthy imageUrl \<and> \<not> substring_ok imageUrl then Inl TypeError
               else Inr imageUrl))
      else Inr (or_js (opt_member dd ''url'') (or_js (opt_member dd ''image_url'') JNull)))"

text \<open>
  What the body of the \<^verbatim>\<open>try\<close> (lines 44 to 65) does with one response: it falls through
  to the next candidate, returns from pollFreepikTask, or throws; and the value of
  \<^verbatim>\<open>working\<close> it leaves behind. The log line 52 converts \<^verbatim>\<open>status\<close> to text before
  line 53 assigns \<^verbatim>\<open>working\<close>; the log line 59 is part of \<open>extract_url\<close>.
\<close>

datatype outcome =
    Continue
  | Return js

definition try_body :: "fetch_result \<Rightarrow> string \<Rightarrow> string option \<Rightarrow> (exn + outcome) \<times> string option" where
  "try_body r url working =
     (case r of
        NetworkError \<Rightarrow> (Inl FetchError, working)
      | Response st txt body \<Rightarrow>
          if \<not> ok st then (Inr Continue, working)
          else
            (case body of
               None \<Rightarrow> (Inl SyntaxError, working)
             | Some data \<Rightarrow>
                 if truthy data \<and> truthy (opt_member data ''data'') then
                   (let dd = opt_member data ''data'';
                        status = opt_member dd ''status'';
                        working' = (if \<not> working_truthy working then Some url else working)
                    in if \<not> stringable status then (Inl TypeError, working)
                       else if status = JStr ''COMPLETED'' \<or> status = JStr ''SUCCESS'' then
                         (case extract_url dd of
                            Inl e \<Rightarrow> (Inl e, working')
                          | Inr v \<Rightarrow> (Inr (Return v), working'))
                       else if status = JStr ''FAILED'' \<or> status = JStr ''ERROR'' then
                         (Inl (Error (''Task failed: '' @ (case status of JStr s \<Rightarrow> s | _ \<Rightarrow> []))), working')
                       else (Inr Continue, working'))
                 else (Inr Continue, working)))"

text \<open>\<^verbatim>\<open>try { ... } catch (_) { /* try next */ }\<close>: whatever was thrown is dropped.\<close>

definition poll_step :: "fetch_result \<Rightarrow> string \<Rightarrow> string option \<Rightarrow> outcome \<times> string option" where
  "poll_step r url working =
     (case try_body r url working of
        (Inl e, working') \<Rightarrow> (Continue, working')
      | (Inr oc, working') \<Rightarrow> (oc, working'))"

text \<open>One round's record: the URLs fetched, in order, each with what came back.\<close>

type_synonym round = "(string \<times> fetch_result) list"

text \<open>\<^verbatim>\<open>for (const url of candidates)\<close>: the value returned (if any), \<^verbatim>\<open>working\<close>, the world, the record.\<close>

fun poll_candidates ::
  "'w net \<Rightarrow> string \<Rightarrow> string list \<Rightarrow> string option \<Rightarrow> 'w \<Rightarrow> js option \<times> string option \<times> 'w \<times> round" where
  "poll_candidates net apiKey [] working w = (None, working, w, [])"
| "poll_candidates net apiKey (url # rest) working w =
     (case net w (GET url apiKey) of
        (r, w') \<Rightarrow>
          (case poll_step r url working of
             (Return v, working') \<Rightarrow> (Some v, working', w', [(url, r)])
           | (Continue, working') \<Rightarrow>
               (case poll_candidates net apiKey rest working' w' of
                  (res, working'', w'', tr) \<Rightarrow> (res, working'', w'', (url, r) # tr))))"

text \<open>
  \<^verbatim>\<open>for (let attempt = 0; attempt < maxAttempts; attempt++)\<close>, from any attempt and any
  \<^verbatim>\<open>working\<close>; the delay between rounds changes nothing here. The record has one entry
  per round started.
\<close>

function poll_rounds ::
  "'w net \<Rightarrow> string \<Rightarrow> string list \<Rightarrow> nat \<Rightarrow> nat \<Rightarrow> string option \<Rightarrow> 'w \<Rightarrow> (exn + js) \<times> 'w \<times> round list" where
  "poll_rounds net apiKey eps maxAttempts attempt working w =
     (if attempt < maxAttempts then
        (case poll_candidates net apiKey (candidates_of working eps) working w of
           (Some v, working', w', tr) \<Rightarrow> (Inr v, w', [tr])
         | (None, working', w', tr) \<Rightarrow>
             (case poll_rounds net apiKey eps maxAttempts (Suc attempt) working' w' of
                (res, w'', trs) \<Rightarrow> (res, w'', tr # trs)))
      else (Inl (Error ''Freepik polling timeout''), w, []))"
  by pat_completeness auto
termination
  by (relation "measure (\<lambda>(net, apiKey, eps, maxAttempts, attempt, working, w). maxAttempts - attempt)") auto

definition pollFreepikTask ::
  "'w net \<Rightarrow> string \<Rightarrow> string \<Rightarrow> nat \<Rightarrow> 'w \<Rightarrow> (exn + js) \<times> 'w \<times> round list" where
  "pollFreepikTask net taskId apiKey maxAttempts w =
     poll_rounds net apiKey (endpoints taskId) maxAttempts 0 None w"

section \<open>POST /api/freepik/generate\<close>

text \<open>
  What \<^verbatim>\<open>res.status(code).json(body)\<close> sends: \<open>UrlBody v\<close> is \<^verbatim>\<open>{ url: v }\<close>,
  \<open>ErrorBody m\<close> is \<^verbatim>\<open>{ error: m }\<close>, \<open>QuotaBody m\<close> is
  \<^verbatim>\<open>{ error: m, quota_exceeded: true }\<close>, and \<open>ExnBody e\<close> is \<^verbatim>\<open>{ error: e.message }\<close>
  for a runtime exception \<open>e\<close>, whose message is the runtime's.
\<close>

datatype body =
    UrlBody js
  | ErrorBody string
  | QuotaBody string
  | ExnBody exn

type_synonym reply = "nat \<times> body"

fun digit :: "nat \<Rightarrow> char" where
  "digit n = char_of (48 + n)"

text \<open>The decimal text of \<^verbatim>\<open>resp.status\<close> in a template literal.\<close>

fun dec :: "nat \<Rightarrow> string" where
  "dec n = (if n < 10 then [digit n] else dec (n div 10) @ [digit (n mod 10)])"

text \<open>The \<^verbatim>\<open>catch (e)\<close> of the handler: \<^verbatim>\<open>e.message || 'Freepik proxy failure'\<close> with status 500.\<close>

fun catch_reply :: "exn \<Rightarrow> reply" where
  "catch_reply (Error m) = (500, ErrorBody (if m \<noteq> [] then m else ''Freepik proxy failure''))"
| "catch_reply e = (500, ExnBody e)"

text \<open>\<^verbatim>\<open>JSON.stringify({ prompt, aspect_ratio })\<close>: an undefined property is left out.\<close>

definition request_body :: "js \<Rightarrow> js \<Rightarrow> js" where
  "request_body prompt aspect_ratio =
     JObj ((''prompt'', prompt) #
           (if aspect_ratio = JUndef then [] else [(''aspect_ratio'', aspect_ratio)]))"

definition quota_message :: string where
  "quota_message =
     ''Freepik API quota exceeded (free trial limit reached). Upgrade your plan or use a new API key.''"

text \<open>The GET requests of a polling session, in the order they were made.\<close>

definition poll_requests :: "string \<Rightarrow> round list \<Rightarrow> request list" where
  "poll_requests apiKey trs = map (\<lambda>(url, r). GET url apiKey) (concat trs)"

text \<open>\<^verbatim>\<open>result?.data?.task_id && result?.data?.status === 'CREATED'\<close> (line 114)\<close>

definition is_task_handle :: "js \<Rightarrow> bool" where
  "is_task_handle result =
     (truthy (opt_member (opt_member result ''data'') ''task_id'') \<and>
      opt_member (opt_member result ''data'') ''status'' = JStr ''CREATED'')"

text \<open>\<^verbatim>\<open>result?.data?.url || result?.data?.image_url || result?.url || null\<close> (line 119)\<close>

definition direct_of :: "js \<Rightarrow> js" where
  "direct_of result =
     or_js (opt_member (opt_member result ''data'') ''url'')
    (or_js (opt_member (opt_member result ''data'') ''image_url'')
    (or_js (opt_member result ''url'') JNull))"

text \<open>
  Lines 112 to 121, on the parsed body of a 2xx response: the reply, the world, and the
  requests made by the poller (called with its default of 60 attempts). The log line 113
  converts \<^verbatim>\<open>result?.data?.task_id\<close> and \<^verbatim>\<open>result?.data?.status\<close> to text first; the
  poller's own template literals convert the task id again, to the same text.
\<close>

definition on_result ::
  "'w net \<Rightarrow> (rat \<Rightarrow> string) \<Rightarrow> string \<Rightarrow> js \<Rightarrow> 'w \<Rightarrow> reply \<times> 'w \<times> request list" where
  "on_result net fmt apiKey result w =
     (case js_to_string fmt (opt_member (opt_member result ''data'') ''task_id'') of
        Inl e \<Rightarrow> (catch_reply e, w, [])
      | Inr taskId \<Rightarrow>
          if \<not> stringable (opt_member (opt_member result ''data'') ''status'') then
            (catch_reply TypeError, w, [])
          else if is_task_handle result then
            (case pollFreepikTask net taskId apiKey 60 w of
               (Inl e, w', trs) \<Rightarrow> (catch_reply e, w', poll_requests apiKey trs)
             | (Inr url, w', trs) \<Rightarrow> ((200, UrlBody url), w', poll_requests apiKey trs))
          else if truthy (direct_of result) \<and> \<not> substring_ok (direct_of result) then
            (catch_reply TypeError, w, [])
          else ((200, UrlBody (direct_of result)), w, []))"

text \<open>\<^verbatim>\<open>const { prompt, aspect_ratio } = req.body || {}\<close>\<close>

definition prompt_of :: "js \<Rightarrow> js" where
  "prompt_of reqBody = opt_member (or_js reqBody (JObj [])) ''prompt''"

definition aspect_ratio_of :: "js \<Rightarrow> js" where
  "aspect_ratio_of reqBody = opt_member (or_js reqBody (JObj [])) ''aspect_ratio''"

text \<open>The one POST to the provider (line 87).\<close>

definition submission :: "string \<Rightarrow> js \<Rightarrow> request" where
  "submission apiKey reqBody =
     POST FREEPIK_API_URL apiKey (request_body (prompt_of reqBody) (aspect_ratio_of reqBody))"

text \<open>
  The handler, on the process's FREEPIK_API_KEY (absent: \<open>None\<close>) and \<^verbatim>\<open>req.body\<close>:
  the reply sent, the world afterwards, and every request made to the provider, in order.
  The log line 81 takes \<^verbatim>\<open>prompt.substring\<close> of a truthy prompt and converts
  \<^verbatim>\<open>aspect_ratio\<close> to text, before the prompt is tested at line 82.
\<close>

definition generate ::
  "'w net \<Rightarrow> (rat \<Rightarrow> string) \<Rightarrow> string option \<Rightarrow> js \<Rightarrow> 'w \<Rightarrow> reply \<times> 'w \<times> request list" where
  "generate net fmt key reqBody w =
     (case key of
        None \<Rightarrow> ((400, ErrorBody ''Freepik API key missing on server''), w, [])
      | Some apiKey \<Rightarrow>
          if apiKey = [] then ((400, ErrorBody ''Freepik API key missing on server''), w, [])
          else if truthy (prompt_of reqBody) \<and> \<not> substring_ok (prompt_of reqBody) then
            (catch_reply TypeError, w, [])
          else if \<not> stringable (aspect_ratio_of reqBody) then (catch_reply TypeError, w, [])
          else if \<not> truthy (prompt_of reqBody) then ((400, ErrorBody ''prompt required''), w, [])
          else
            (case net w (submission apiKey reqBody) of
               (NetworkError, w') \<Rightarrow> (catch_reply FetchError, w', [submission apiKey reqBody])
             | (Response st txt parsed, w') \<Rightarrow>
                 if \<not> ok st then
                   (if st = 429 then
                      ((429, QuotaBody quota_message), w', [submission apiKey reqBody])
                    else
                      ((502, ErrorBody (''Freepik error '' @ dec st @ '': '' @ txt)), w',
                       [submission apiKey reqBody]))
                 else
                   (case parsed of
                      None \<Rightarrow> (catch_reply SyntaxError, w', [submission apiKey reqBody])
                    | Some result \<Rightarrow>
                        (case on_result net fmt apiKey result w' of
                           (rep, w'', rqs) \<Rightarrow> (rep, w'', submission apiKey reqBody # rqs)))))"

section \<open>Reading a response the way the poller does\<close>

text \<open>
  \<^verbatim>\<open>data.data\<close> of a response that gets to line 53: the HTTP status is 2xx, the body is
  JSON, both \<^verbatim>\<open>data\<close> and \<^verbatim>\<open>data.data\<close> are truthy, and the status converts to text.
\<close>

definition payload :: "fetch_result \<Rightarrow> js option" where
  "payload r =
     (case r of
        NetworkError \<Rightarrow> None
      | Response st txt parsed \<Rightarrow>
          (case parsed of
             None \<Rightarrow> None
           | Some data \<Rightarrow>
               if ok st \<and> truthy data \<and> truthy (opt_member data ''data'') \<and>
                  stringable (opt_member (opt_member data ''data'') ''status'')
               then Some (opt_member data ''data'') else None))"

text \<open>Line 54.\<close>

definition completed :: "js \<Rightarrow> bool" where
  "completed dd =
     (opt_member dd ''status'' = JStr ''COMPLETED'' \<or> opt_member dd ''status'' = JStr ''SUCCESS'')"

text \<open>The value pollFreepikTask returns on a response, when it returns on it.\<close>

definition returned :: "fetch_result \<Rightarrow> js option" where
  "returned r =
     (case payload r of
        None \<Rightarrow> None
      | Some dd \<Rightarrow>
          if completed dd then (case extract_url dd of Inl e \<Rightarrow> None | Inr v \<Rightarrow> Some v)
          else None)"


text \<open>The URL of the first response with a payload among those fetched so far.\<close>

definition pinned_by :: "round \<Rightarrow> string option" where
  "pinned_by tr = map_option fst (find (\<lambda>(url, r). payload r \<noteq> None) tr)"

section \<open>The artifact, as a list of rules\<close>

text \<open>
  The preference order written as data: \<^verbatim>\<open>generated\<close> counts as a list of assets when
  it is truthy and has a truthy \<^verbatim>\<open>length\<close>; then the artifact comes from its element 0,
  the first truthy one of the fields url, image_url, imageUrl and src in that order, else
  the element itself when it is a string, else null. Otherwise it is the first truthy one
  of the top-level url and image_url, else null.
\<close>

definition asset_fields :: "string list" where
  "asset_fields = [''url'', ''image_url'', ''imageUrl'', ''src'']"

definition first_truthy :: "js list \<Rightarrow> js option" where
  "first_truthy vs = find truthy vs"

definition list_like :: "js \<Rightarrow> bool" where
  "list_like g = (truthy g \<and> truthy (opt_member g ''length''))"

definition preferred_artifact :: "js \<Rightarrow> js" where
  "preferred_artifact dd =
     (if list_like (opt_member dd ''generated'') then
        (case first_truthy
                (map (opt_member (opt_member (opt_member dd ''generated'') ''0'')) asset_fields) of
           Some v \<Rightarrow> v
         | None \<Rightarrow>
             (case opt_member (opt_member dd ''generated'') ''0'' of
                JStr s \<Rightarrow> JStr s
              | _ \<Rightarrow> JNull))
      else
        (case first_truthy (map (opt_member dd) [''url'', ''image_url'']) of
           Some v \<Rightarrow> v
         | None \<Rightarrow> JNull))"

text \<open>
  Reading the artifact throws in two cases, both inside the \<^verbatim>\<open>try\<close>: element 0 of the
  list is null or undefined (line 58), or the value taken from its fields is not a
  string (the log line 59 calls \<^verbatim>\<open>substring\<close> on it). \<open>reads_cleanly\<close> excludes them.
\<close>

definition reads_cleanly :: "js \<Rightarrow> bool" where
  "reads_cleanly dd =
     (list_like (opt_member dd ''generated'') \<longrightarrow>
        \<not> nullish (opt_member (opt_member dd ''generated'') ''0'') \<and>
        (case first_truthy
                (map (opt_member (opt_member (opt_member dd ''generated'') ''0'')) asset_fields) of
           Some v \<Rightarrow> substring_ok v
         | None \<Rightarrow> True))"

section \<open>Scenarios\<close>

definition no_fmt :: "rat \<Rightarrow> string" where
  "no_fmt n = []"

definition cat_request :: js where
  "cat_request = JObj [(''prompt'', JStr ''cat'')]"

text \<open>A provider that cannot be reached.\<close>

definition silent_net :: "unit net" where
  "silent_net w rq = (NetworkError, w)"

text \<open>A provider that answers 429 with a body that would otherwise read as a result.\<close>

definition quota_net :: "unit net" where
  "quota_net w rq =
     (Response 429 ''slow down''
        (Some (JObj [(''data'', JObj [(''url'', JStr ''https://x/a.png'')])])), w)"

text \<open>A provider that answers 200 with \<^verbatim>\<open>{}\<close>.\<close>

definition empty_object_net :: "unit net" where
  "empty_object_net w rq = (Response 200 [] (Some (JObj [])), w)"

text \<open>
  A provider that answers 200 with an empty data.url, a data.image_url and a top-level url:
  \<^verbatim>\<open>{"data":{"url":"","image_url":"https://x/a.png"},"url":"https://x/c.png"}\<close>.
\<close>

definition embedded_body :: js where
  "embedded_body =
     JObj [(''data'', JObj [(''url'', JStr []), (''image_url'', JStr ''https://x/a.png'')]),
           (''url'', JStr ''https://x/c.png'')]"

definition image_url_net :: "unit net" where
  "image_url_net w rq = (Response 200 [] (Some embedded_body), w)"

text \<open>A provider that answers 200 with a body that is not JSON.\<close>

definition plain_text_net :: "unit net" where
  "plain_text_net w rq = (Response 200 ''OK'' None, w)"

text \<open>
  A provider whose answer to the submission holds a task handle and a url at once, and
  whose status endpoint reports the task completed with another image.
\<close>

definition handle_and_url_net :: "unit net" where
  "handle_and_url_net w rq =
     (case rq of
        POST u k b \<Rightarrow>
          (Response 200 [] (Some (JObj [(''data'', JObj [(''task_id'', JStr ''T1''),
              (''status'', JStr ''CREATED''), (''url'', JStr ''https://x/a.png'')])])), w)
      | GET u k \<Rightarrow>
          (Response 200 [] (Some (JObj [(''data'', JObj [(''status'', JStr ''COMPLETED''),
              (''generated'', JArr [JObj [(''url'', JStr ''https://x/b.png'')]])])])), w))"

text \<open>A status answer \<^verbatim>\<open>{"data":{"status": s}}\<close> with HTTP 200.\<close>

definition status_response :: "string \<Rightarrow> fetch_result" where
  "status_response s = Response 200 [] (Some (JObj [(''data'', JObj [(''status'', JStr s)])]))"

text \<open>A provider whose every answer reports the task FAILED.\<close>

definition always_failed_net :: "unit net" where
  "always_failed_net w rq = (status_response ''FAILED'', w)"


text \<open>A provider whose every answer is \<^verbatim>\<open>{"data":{}}\<close>: a payload without a status.\<close>

definition bare_data_net :: "unit net" where
  "bare_data_net w rq = (Response 200 [] (Some (JObj [(''data'', JObj [])])), w)"

text \<open>
  The world counts the requests made. Only the second candidate of task T1 is ever
  reachable, and only from the fourth request on; it then reports IN_PROGRESS.
\<close>

definition second_candidate_net :: "nat net" where
  "second_candidate_net w rq =
     (case rq of
        GET u k \<Rightarrow>
          (if u = FREEPIK_API_URL @ ''?task_id=T1'' \<and> 3 \<le> w then status_response ''IN_PROGRESS''
           else NetworkError, Suc w)
      | POST u k b \<Rightarrow> (NetworkError, Suc w))"

text \<open>
  A completed task whose first asset has src and image_url (in this order in the object)
  beside a top-level url; and a provider that reports it from the fifth request on.
\<close>

definition finished_payload :: js where
  "finished_payload =
     JObj [(''status'', JStr ''COMPLETED''),
           (''url'', JStr ''https://x/t.png''),
           (''generated'', JArr [JObj [(''src'', JStr ''https://x/s.png''),
                                       (''image_url'', JStr ''https://x/a.png'')]])]"

definition finished_response :: fetch_result where
  "finished_response = Response 200 [] (Some (JObj [(''data'', finished_payload)]))"

definition finishing_net :: "nat net" where
  "finishing_net w rq =
     (if w < 4 then status_response ''IN_PROGRESS'' else finished_response, Suc w)"

text \<open>
  A provider whose first candidate answers \<^verbatim>\<open>{"data":{}}\<close>, with no status at all,
  while the other two report IN_PROGRESS.
\<close>

definition bare_first_net :: "unit net" where
  "bare_first_net w rq =
     (case rq of
        GET u k \<Rightarrow>
          (if u = FREEPIK_API_URL @ ''/T1'' then Response 200 [] (Some (JObj [(''data'', JObj [])]))
           else status_response ''IN_PROGRESS'', w)
      | POST u k b \<Rightarrow> (NetworkError, w))"

text \<open>
  A provider whose every answer carries, as status, an object with a key \<^verbatim>\<open>toString\<close>:
  \<^verbatim>\<open>{"data":{"status":{"toString":1}}}\<close>.
\<close>

definition odd_status_body :: js where
  "odd_status_body = JObj [(''data'', JObj [(''status'', JObj [(''toString'', JNum 1)])])]"

definition odd_status_net :: "unit net" where
  "odd_status_net w rq = (Response 200 [] (Some odd_status_body), w)"

text \<open>
  A completed task whose \<^verbatim>\<open>generated\<close> is the string \<^verbatim>\<open>"abc"\<close>, not a list, beside a
  top-level url.
\<close>

definition text_generated_payload :: js where
  "text_generated_payload =
     JObj [(''status'', JStr ''COMPLETED''),
           (''url'', JStr ''https://x/t.png''),
           (''generated'', JStr ''abc'')]"

definition text_generated_net :: "unit net" where
  "text_generated_net w rq = (Response 200 [] (Some (JObj [(''data'', text_generated_payload)])), w)"

section \<open>The poller: lemmas\<close>

lemma poll_step_eq:
  "poll_step r url working =
     ((case returned r of Some v \<Rightarrow> Return v | None \<Rightarrow> Continue),
      (if payload r \<noteq> None \<and> \<not> working_truthy working then Some url else working))"
  by (auto simp: poll_step_def try_body_def returned_def payload_def completed_def Let_def
      split: fetch_result.splits option.splits sum.splits)

lemma poll_candidates_trace:
  "poll_candidates net apiKey cs working w = (res, working', w', tr) \<Longrightarrow>
     (case res of
        Some v \<Rightarrow> tr \<noteq> [] \<and> returned (snd (last tr)) = Some v \<and>
                  (\<forall>e \<in> set (butlast tr). returned (snd e) = None) \<and> prefix (map fst tr) cs
      | None \<Rightarrow> (\<forall>e \<in> set tr. returned (snd e) = None) \<and> map fst tr = cs)"
proof (induction cs arbitrary: working w res working' w' tr)
  case Nil
  then show ?case by simp
next
  case (Cons url rest)
  obtain r w1 where f: "net w (GET url apiKey) = (r, w1)" by (cases "net w (GET url apiKey)")
  show ?case
  proof (cases "returned r")
    case (Some v)
    with Cons.prems f have eq: "res = Some v" "tr = [(url, r)]" by (auto simp: poll_step_eq)
    show ?thesis unfolding eq using Some by simp
  next
    case None
    obtain res2 wk2 w2 tr2 where
      rec: "poll_candidates net apiKey rest
             (if payload r \<noteq> None \<and> \<not> working_truthy working then Some url else working) w1
            = (res2, wk2, w2, tr2)"
      using prod_cases4 by blast
    from Cons.prems f None rec have eq: "res = res2" "tr = (url, r) # tr2"
      by (auto simp: poll_step_eq)
    from Cons.IH[OF rec] None show ?thesis unfolding eq
      by (cases res2) (auto split: if_splits)
  qed
qed

lemma poll_rounds_trace:
  "poll_rounds net apiKey eps maxAttempts attempt working w = (res, w', trs) \<Longrightarrow>
     (case res of
        Inr v \<Rightarrow> concat trs \<noteq> [] \<and> returned (snd (last (concat trs))) = Some v \<and>
                 (\<forall>e \<in> set (butlast (concat trs)). returned (snd e) = None) \<and>
                 length trs \<le> maxAttempts - attempt
      | Inl e \<Rightarrow> e = Error ''Freepik polling timeout'' \<and> length trs = maxAttempts - attempt \<and>
                 (\<forall>e \<in> set (concat trs). returned (snd e) = None))"
proof (induction net apiKey eps maxAttempts attempt working w arbitrary: res w' trs
       rule: poll_rounds.induct)
  case (1 net apiKey eps maxAttempts attempt working w)
  show ?case
  proof (cases "attempt < maxAttempts")
    case False
    with "1.prems" show ?thesis by auto
  next
    case True
    obtain r1 wk1 w1 tr1 where
      pc: "poll_candidates net apiKey (candidates_of working eps) working w = (r1, wk1, w1, tr1)"
      using prod_cases4 by blast
    note t1 = poll_candidates_trace[OF pc]
    show ?thesis
    proof (cases r1)
      case (Some v)
      with "1.prems" True pc have "res = Inr v" "trs = [tr1]" by auto
      with t1 Some True show ?thesis by auto
    next
      case None
      obtain res2 w2 trs2 where
        rec: "poll_rounds net apiKey eps maxAttempts (Suc attempt) wk1 w1 = (res2, w2, trs2)"
        using prod_cases3 by blast
      from "1.prems" True pc None rec have eq: "res = res2" "trs = tr1 # trs2" by auto
      have ih: "case res2 of
        Inr v \<Rightarrow> concat trs2 \<noteq> [] \<and> returned (snd (last (concat trs2))) = Some v \<and>
                 (\<forall>e \<in> set (butlast (concat trs2)). returned (snd e) = None) \<and>
                 length trs2 \<le> maxAttempts - Suc attempt
      | Inl e \<Rightarrow> e = Error ''Freepik polling timeout'' \<and> length trs2 = maxAttempts - Suc attempt \<and>
                 (\<forall>e \<in> set (concat trs2). returned (snd e) = None)"
        using "1.IH"[OF True pc[symmetric] _ _ _ rec] None by simp
      from t1 None have n1: "\<forall>e \<in> set tr1. returned (snd e) = None" by simp
      show ?thesis unfolding eq using ih n1 True
        by (cases res2) (auto simp: butlast_append)
    qed
  qed
qed


lemma first_truthy_is_truthy: "first_truthy vs = Some v \<Longrightarrow> truthy v"
  by (auto simp: first_truthy_def find_Some_iff)

lemma chain_first_truthy:
  "or_js a (or_js b (or_js c (or_js d z))) =
     (case first_truthy [a, b, c, d] of Some v \<Rightarrow> v | None \<Rightarrow> z)"
  by (simp add: or_js_def first_truthy_def)

lemma chain2_first_truthy:
  "or_js a (or_js b JNull) = (case first_truthy [a, b] of Some v \<Rightarrow> v | None \<Rightarrow> JNull)"
  by (simp add: or_js_def first_truthy_def)

lemma string_or_null: "truthy (case e of JStr s \<Rightarrow> JStr s | _ \<Rightarrow> JNull) \<Longrightarrow>
    substring_ok (case e of JStr s \<Rightarrow> JStr s | _ \<Rightarrow> JNull)"
  by (cases e) (simp_all add: substring_ok_def)

lemma typeof_string: "(case e of JStr s \<Rightarrow> e | _ \<Rightarrow> JNull) = (case e of JStr s \<Rightarrow> JStr s | _ \<Rightarrow> JNull)"
  by (cases e) simp_all

lemma extract_url_list_like:
  "extract_url dd =
     (if list_like (opt_member dd ''generated'') then
        (if nullish (opt_member (opt_member dd ''generated'') ''0'') then Inl TypeError
         else
           (let imageUrl =
                  or_js (opt_member (opt_member (opt_member dd ''generated'') ''0'') ''url'')
                 (or_js (opt_member (opt_member (opt_member dd ''generated'') ''0'') ''image_url'')
                 (or_js (opt_member (opt_member (opt_member dd ''generated'') ''0'') ''imageUrl'')
                 (or_js (opt_member (opt_member (opt_member dd ''generated'') ''0'') ''src'')
                        (case opt_member (opt_member dd ''generated'') ''0'' of
                           JStr s \<Rightarrow> opt_member (opt_member dd ''generated'') ''0''
                         | _ \<Rightarrow> JNull))))
            in if truthy imageUrl \<and> \<not> substring_ok imageUrl then Inl TypeError
               else Inr imageUrl))
      else Inr (or_js (opt_member dd ''url'') (or_js (opt_member dd ''image_url'') JNull)))"
  by (simp add: extract_url_def list_like_def Let_def)

lemma image_url_chain:
  "(let imageUrl = or_js a (or_js b (or_js c (or_js d (case e of JStr s \<Rightarrow> e | _ \<Rightarrow> JNull))))
    in if truthy imageUrl \<and> \<not> substring_ok imageUrl then Inl TypeError else Inr imageUrl) =
   (case first_truthy [a, b, c, d] of
      Some v \<Rightarrow> if substring_ok v then Inr v else Inl TypeError
    | None \<Rightarrow> Inr (case e of JStr s \<Rightarrow> JStr s | _ \<Rightarrow> JNull))"
proof (cases "first_truthy [a, b, c, d]")
  case None
  then show ?thesis
    unfolding Let_def chain_first_truthy typeof_string using string_or_null[of e] by auto
next
  case (Some v)
  then have "truthy v" by (rule first_truthy_is_truthy)
  with Some show ?thesis
    unfolding Let_def chain_first_truthy typeof_string by simp
qed

lemma extract_url_eq:
  "extract_url dd = (if reads_cleanly dd then Inr (preferred_artifact dd) else Inl TypeError)"
proof (cases "list_like (opt_member dd ''generated'')")
  case False
  then show ?thesis
    by (simp add: extract_url_list_like reads_cleanly_def preferred_artifact_def
        chain2_first_truthy)
next
  case True
  then show ?thesis
    unfolding extract_url_list_like image_url_chain
    by (simp add: reads_cleanly_def preferred_artifact_def asset_fields_def
        split: option.splits)
qed


lemma poll_candidates_keeps_working:
  "working_truthy working \<Longrightarrow> fst (snd (poll_candidates net apiKey cs working w)) = working"
proof (induction cs arbitrary: w)
  case Nil
  then show ?case by simp
next
  case (Cons url rest)
  obtain r w1 where f: "net w (GET url apiKey) = (r, w1)" by (cases "net w (GET url apiKey)")
  from Cons.IH[OF Cons.prems, of w1] Cons.prems f show ?case
    by (cases "poll_candidates net apiKey rest working w1")
       (simp add: poll_step_eq split: option.splits)
qed

lemma truthy_data_member: "truthy (opt_member data ''data'') \<Longrightarrow> truthy data"
  by (cases data) auto

lemma pinned_by_Nil: "pinned_by [] = None"
  by (simp add: pinned_by_def)

lemma pinned_by_Cons:
  "pinned_by ((url, r) # tr) = (if payload r \<noteq> None then Some url else pinned_by tr)"
  by (simp add: pinned_by_def)

lemma pinned_by_append:
  "pinned_by (tr @ tr') = (case pinned_by tr of Some u \<Rightarrow> Some u | None \<Rightarrow> pinned_by tr')"
  by (induction tr) (auto simp: pinned_by_Nil pinned_by_Cons)

lemma poll_candidates_working:
  assumes "\<forall>u \<in> set cs. u \<noteq> []" "working = None \<or> working_truthy working"
    and "poll_candidates net apiKey cs working w = (res, working', w', tr)"
  shows "working' = (if working_truthy working then working else pinned_by tr) \<and>
         (working' = None \<or> working_truthy working')"
  using assms
proof (induction cs arbitrary: working w res working' w' tr)
  case Nil
  then show ?case by (auto simp: pinned_by_Nil)
next
  case (Cons url rest)
  obtain r w1 where f: "net w (GET url apiKey) = (r, w1)" by (cases "net w (GET url apiKey)")
  define wk1 where "wk1 = (if payload r \<noteq> None \<and> \<not> working_truthy working then Some url else working)"
  have u: "url \<noteq> []" using Cons.prems(1) by simp
  have wk1: "wk1 = None \<or> working_truthy wk1" using Cons.prems(2) u by (auto simp: wk1_def)
  show ?case
  proof (cases "returned r")
    case (Some v)
    with Cons.prems(3) f have eq: "working' = wk1" "tr = [(url, r)]"
      by (auto simp: poll_step_eq wk1_def)
    show ?thesis unfolding eq using Cons.prems(2) u
      by (auto simp: wk1_def pinned_by_Cons pinned_by_Nil)
  next
    case None
    obtain res2 wk2 w2 tr2 where
      rec: "poll_candidates net apiKey rest wk1 w1 = (res2, wk2, w2, tr2)"
      using prod_cases4 by blast
    from Cons.prems(3) f None rec have eq: "working' = wk2" "tr = (url, r) # tr2"
      by (auto simp: poll_step_eq wk1_def)
    have rest: "\<forall>u \<in> set rest. u \<noteq> []" using Cons.prems(1) by simp
    note ih0 = Cons.IH[OF rest wk1 rec]
    have ih: "wk2 = (if working_truthy wk1 then wk1 else pinned_by tr2)"
      "wk2 = None \<or> working_truthy wk2"
      using ih0 by blast+
    show ?thesis unfolding eq using ih Cons.prems(2) u
      by (auto simp: wk1_def pinned_by_Cons)
  qed
qed

lemma candidates_nonempty:
  "\<forall>u \<in> set eps. u \<noteq> [] \<Longrightarrow> \<forall>u \<in> set (candidates_of working eps). u \<noteq> []"
  by (cases working) auto

lemma poll_rounds_pinning:
  assumes "\<forall>u \<in> set eps. u \<noteq> []" "working = None \<or> working_truthy working"
    and "poll_rounds net apiKey eps maxAttempts attempt working w = (res, w', trs)"
  shows "\<forall>j < length trs.
           (case (if working_truthy working then working else pinned_by (concat (take j trs))) of
              Some u \<Rightarrow> map fst (trs ! j) = [u]
            | None \<Rightarrow> prefix (map fst (trs ! j)) eps \<and>
                      (Suc j < length trs \<or> isl res \<longrightarrow> map fst (trs ! j) = eps))"
  using assms
proof (induction net apiKey eps maxAttempts attempt working w arbitrary: res w' trs
       rule: poll_rounds.induct)
  case (1 net apiKey eps maxAttempts attempt working w)
  note eps = "1.prems"(1)
  show ?case
  proof (cases "attempt < maxAttempts")
    case False
    with "1.prems" show ?thesis by auto
  next
    case True
    obtain r1 wk1 w1 tr1 where
      pc: "poll_candidates net apiKey (candidates_of working eps) working w = (r1, wk1, w1, tr1)"
      using prod_cases4 by blast
    note t1 = poll_candidates_trace[OF pc]
    note k1 = poll_candidates_working[OF candidates_nonempty[OF eps] "1.prems"(2) pc]
    have first: "case working of
                   Some u \<Rightarrow> map fst tr1 = [u]
                 | None \<Rightarrow> prefix (map fst tr1) eps \<and> (r1 = None \<longrightarrow> map fst tr1 = eps)"
    proof (cases working)
      case None
      with t1 show ?thesis by (cases r1) auto
    next
      case (Some u)
      with "1.prems"(2) have "candidates_of working eps = [u]" by auto
      with t1 Some show ?thesis by (cases r1) (auto simp: prefix_Cons)
    qed
    have p0: "(if working_truthy working then working else pinned_by (concat (take 0 trs))) = working"
      using "1.prems"(2) by (auto simp: pinned_by_Nil)
    show ?thesis
    proof (cases r1)
      case (Some v)
      with "1.prems"(3) True pc have eq: "res = Inr v" "trs = [tr1]" by auto
      show ?thesis unfolding eq using first "1.prems"(2)
        by (auto simp: pinned_by_Nil split: option.splits)
    next
      case None
      obtain res2 w2 trs2 where
        rec: "poll_rounds net apiKey eps maxAttempts (Suc attempt) wk1 w1 = (res2, w2, trs2)"
        using prod_cases3 by blast
      from "1.prems"(3) True pc None rec have eq: "res = res2" "trs = tr1 # trs2" by auto
      have ih: "\<forall>j < length trs2.
           (case (if working_truthy wk1 then wk1 else pinned_by (concat (take j trs2))) of
              Some u \<Rightarrow> map fst (trs2 ! j) = [u]
            | None \<Rightarrow> prefix (map fst (trs2 ! j)) eps \<and>
                      (Suc j < length trs2 \<or> isl res2 \<longrightarrow> map fst (trs2 ! j) = eps))"
      proof -
        have wk1_ok: "wk1 = None \<or> working_truthy wk1" using k1 by blast
        note h = "1.IH"[OF True pc[symmetric] None refl refl eps wk1_ok rec]
        show ?thesis using h by simp
      qed
      have step: "\<And>j. (if working_truthy working then working
                        else pinned_by (concat (take (Suc j) (tr1 # trs2)))) =
                       (if working_truthy wk1 then wk1 else pinned_by (concat (take j trs2)))"
        using k1 by (auto simp: pinned_by_append split: option.splits)
      show ?thesis unfolding eq
      proof (intro allI impI)
        fix j assume j: "j < length (tr1 # trs2)"
        show "case (if working_truthy working then working
                    else pinned_by (concat (take j (tr1 # trs2)))) of
                Some u \<Rightarrow> map fst ((tr1 # trs2) ! j) = [u]
              | None \<Rightarrow> prefix (map fst ((tr1 # trs2) ! j)) eps \<and>
                        (Suc j < length (tr1 # trs2) \<or> isl res2 \<longrightarrow> map fst ((tr1 # trs2) ! j) = eps)"
        proof (cases j)
          case 0
          with first None "1.prems"(2) show ?thesis
            by (auto simp: pinned_by_Nil split: option.splits)
        next
          case (Suc j')
          with j have "j' < length trs2" by simp
          with ih have "case (if working_truthy wk1 then wk1 else pinned_by (concat (take j' trs2))) of
              Some u \<Rightarrow> map fst (trs2 ! j') = [u]
            | None \<Rightarrow> prefix (map fst (trs2 ! j')) eps \<and>
                      (Suc j' < length trs2 \<or> isl res2 \<longrightarrow> map fst (trs2 ! j') = eps)" by blast
          then show ?thesis unfolding Suc step by (cases "working_truthy wk1") (auto split: option.splits)
        qed
      qed
    qed
  qed
qed

lemma endpoints_nonempty: "\<forall>u \<in> set (endpoints taskId). u \<noteq> []"
  by (simp add: endpoints_def FREEPIK_API_URL_def)

section \<open>The poller: claims\<close>

text \<open>
  Claim C1 says that a FAILED or ERROR status raises the task-failed error and ends the
  session at that round. The code throws it (line 64) inside the \<^verbatim>\<open>try\<close> whose
  \<^verbatim>\<open>catch\<close> (line 66) drops every exception: against a provider that always reports
  FAILED, with 3 attempts, the throw happens and is dropped, all three rounds run (the
  first over all candidates), and what is raised is the polling timeout.
\<close>

theorem failed_status_is_swallowed:
  "fst (try_body (status_response ''FAILED'') (FREEPIK_API_URL @ ''/T1'') None) =
     Inl (Error ''Task failed: FAILED'') \<and>
   fst (poll_step (status_response ''FAILED'') (FREEPIK_API_URL @ ''/T1'') None) = Continue \<and>
   (case pollFreepikTask always_failed_net ''T1'' ''k'' 3 () of
      (res, w, trs) \<Rightarrow>
        res = Inl (Error ''Freepik polling timeout'') \<and>
        map (map fst) trs =
          [endpoints ''T1'', [FREEPIK_API_URL @ ''/T1''], [FREEPIK_API_URL @ ''/T1'']])"
  by code_simp

text \<open>
  Claim C2, as stated: once a candidate yields a well-formed status payload, that same
  candidate is the only one queried afterwards. It fails where an earlier candidate of the
  same round answered \<^verbatim>\<open>{"data":{}}\<close>, which carries no status: that one is pinned, and
  the candidates that did report a status (the second and the third, in round 1) are
  never queried again.
\<close>

theorem pinned_without_status_counterexample:
  "snd (snd (pollFreepikTask bare_first_net ''T1'' ''k'' 3 ())) ! 0 =
     [(FREEPIK_API_URL @ ''/T1'', Response 200 [] (Some (JObj [(''data'', JObj [])]))),
      (FREEPIK_API_URL @ ''?task_id=T1'', status_response ''IN_PROGRESS''),
      (''https://api.freepik.com/v1/ai/tasks/T1'', status_response ''IN_PROGRESS'')] \<and>
   map (map fst) (snd (snd (pollFreepikTask bare_first_net ''T1'' ''k'' 3 ()))) =
     [endpoints ''T1'', [FREEPIK_API_URL @ ''/T1''], [FREEPIK_API_URL @ ''/T1'']]"
  by code_simp

text \<open>
  Claim C2, amended. In every polling session and for every round \<open>j\<close> of it: if some
  response of an earlier round was a 2xx JSON body with a truthy \<^verbatim>\<open>data.data\<close> whose
  status (present or not) converts to text, round \<open>j\<close> queries exactly one URL, that of
  the first such response; if none was, round \<open>j\<close> goes through the ordered list of
  candidates, all of it unless the session returns in that round.
\<close>

theorem pinned_candidate_is_the_only_one_queried:
  assumes "pollFreepikTask net taskId apiKey maxAttempts w = (res, w', trs)" "j < length trs"
  shows "case pinned_by (concat (take j trs)) of
           Some u \<Rightarrow> map fst (trs ! j) = [u]
         | None \<Rightarrow> prefix (map fst (trs ! j)) (endpoints taskId) \<and>
                   (Suc j < length trs \<or> isl res \<longrightarrow> map fst (trs ! j) = endpoints taskId)"
  using poll_rounds_pinning[OF endpoints_nonempty _ assms(1)[unfolded pollFreepikTask_def]] assms(2)
  by simp

theorem pinned_candidate_is_the_only_one_queried_witness:
  "pinned_by (concat (take 2 (snd (snd (pollFreepikTask second_candidate_net ''T1'' ''k'' 4 0))))) =
     Some (FREEPIK_API_URL @ ''?task_id=T1'') \<and>
   map fst (snd (snd (pollFreepikTask second_candidate_net ''T1'' ''k'' 4 0)) ! 2) =
     [FREEPIK_API_URL @ ''?task_id=T1'']"
proof -
  have eq: "pollFreepikTask second_candidate_net ''T1'' ''k'' 4 0 =
      (fst (pollFreepikTask second_candidate_net ''T1'' ''k'' 4 0),
       fst (snd (pollFreepikTask second_candidate_net ''T1'' ''k'' 4 0)),
       snd (snd (pollFreepikTask second_candidate_net ''T1'' ''k'' 4 0)))"
    by (metis prod.collapse)
  have a: "2 < length (snd (snd (pollFreepikTask second_candidate_net ''T1'' ''k'' 4 0)))"
    by code_simp
  have b: "pinned_by (concat (take 2 (snd (snd (pollFreepikTask second_candidate_net ''T1'' ''k'' 4 0))))) =
     Some (FREEPIK_API_URL @ ''?task_id=T1'')"
    by code_simp
  show ?thesis
    using pinned_candidate_is_the_only_one_queried[OF eq a] b by simp
qed



text \<open>
  Claim C6, as stated: without a list of generated assets the artifact is the top-level
  url. It fails where \<^verbatim>\<open>generated\<close> is a non-empty string: line 56 asks only for a
  truthy value with a truthy length, so the string counts as the list and its first
  character is returned.
\<close>

theorem text_generated_counterexample:
  "opt_member text_generated_payload ''generated'' = JStr ''abc'' \<and>
   opt_member text_generated_payload ''url'' = JStr ''https://x/t.png'' \<and>
   fst (pollFreepikTask text_generated_net ''T1'' ''k'' 1 ()) = Inr (JStr ''a'')"
  by code_simp

text \<open>
  Claim C6, amended. Whenever a session fetches a response whose status is COMPLETED or
  SUCCESS, and reading the artifact does not throw (element 0 of the asset list is neither
  null nor undefined, and the value taken from its fields is a string), the session
  returns on that very response the artifact of the preference order: with a truthy
  \<^verbatim>\<open>generated\<close> of truthy length, its element 0's url, image_url, imageUrl, src, the
  first truthy one, else the element itself when it is a string, else null; otherwise the
  top-level url, then image_url, else null.
\<close>

theorem completed_returns_preferred_artifact:
  assumes "pollFreepikTask net taskId apiKey maxAttempts w = (res, w', trs)"
    and "(url, r) \<in> set (concat trs)"
    and "payload r = Some dd" "completed dd" "reads_cleanly dd"
  shows "res = Inr (preferred_artifact dd) \<and> last (concat trs) = (url, r)"
proof -
  have ret: "returned r = Some (preferred_artifact dd)"
    using assms(3,4,5) by (simp add: returned_def extract_url_eq)
  note t = poll_rounds_trace[OF assms(1)[unfolded pollFreepikTask_def]]
  show ?thesis
  proof (cases res)
    case (Inl e)
    with t assms(2) ret show ?thesis by fastforce
  next
    case (Inr v)
    with t have ne: "concat trs \<noteq> []" and lst: "returned (snd (last (concat trs))) = Some v"
      and bl: "\<forall>e \<in> set (butlast (concat trs)). returned (snd e) = None" by simp_all
    have "(url, r) \<notin> set (butlast (concat trs))" using bl ret by fastforce
    moreover have "set (concat trs) = set (butlast (concat trs)) \<union> {last (concat trs)}"
    proof -
      have "concat trs = butlast (concat trs) @ [last (concat trs)]" using ne by simp
      then have "set (concat trs) = set (butlast (concat trs) @ [last (concat trs)])" by simp
      then show ?thesis by simp
    qed
    ultimately have "last (concat trs) = (url, r)" using assms(2) by auto
    with lst ret Inr show ?thesis by simp
  qed
qed

theorem completed_returns_preferred_artifact_witness:
  "fst (pollFreepikTask finishing_net ''T1'' ''k'' 5 0) = Inr (JStr ''https://x/a.png'')"
proof -
  have eq: "pollFreepikTask finishing_net ''T1'' ''k'' 5 0 =
      (fst (pollFreepikTask finishing_net ''T1'' ''k'' 5 0),
       fst (snd (pollFreepikTask finishing_net ''T1'' ''k'' 5 0)),
       snd (snd (pollFreepikTask finishing_net ''T1'' ''k'' 5 0)))"
    by (metis prod.collapse)
  have a: "(FREEPIK_API_URL @ ''/T1'', finished_response)
             \<in> set (concat (snd (snd (pollFreepikTask finishing_net ''T1'' ''k'' 5 0))))"
    by code_simp
  have b: "payload finished_response = Some finished_payload" by code_simp
  have c: "completed finished_payload" by code_simp
  have d: "reads_cleanly finished_payload" by code_simp
  have e: "preferred_artifact finished_payload = JStr ''https://x/a.png''" by code_simp
  show ?thesis
    using completed_returns_preferred_artifact[OF eq a b c d] e by simp
qed

text \<open>
  Claim C9, as stated: a candidate is pinned as soon as its 2xx response parses to a JSON
  body whose \<^verbatim>\<open>data\<close> is truthy. It fails where the status is an object with a key
  \<^verbatim>\<open>toString\<close>: the log line 52 throws on it before line 53, and \<^verbatim>\<open>working\<close> stays
  null through the whole round.
\<close>

theorem odd_status_not_pinned_counterexample:
  "truthy (opt_member odd_status_body ''data'') \<and>
   fst (odd_status_net () (GET (FREEPIK_API_URL @ ''/T1'') ''k'')) =
     Response 200 [] (Some odd_status_body) \<and>
   fst (snd (poll_candidates odd_status_net ''k'' (endpoints ''T1'') None ())) = None"
  by code_simp

text \<open>
  Claim C9, amended. A candidate is pinned as soon as its 2xx response parses to a JSON
  body whose \<^verbatim>\<open>data\<close> is truthy and whose status, present or not, converts to text (as
  every string, number, boolean, null and absent status does): when nothing is pinned
  yet, the round leaves \<^verbatim>\<open>working\<close> set to that candidate, which is then the only
  candidate of the next round. No status field is needed.
\<close>

theorem pinned_on_truthy_data_without_status:
  assumes "net w (GET url apiKey) = (Response st content (Some data), w')"
    and "200 \<le> st \<and> st \<le> 299" "truthy (opt_member data ''data'')"
    and "stringable (opt_member (opt_member data ''data'') ''status'')"
    and "\<not> working_truthy working" "url \<noteq> []"
  shows "fst (snd (poll_candidates net apiKey (url # rest) working w)) = Some url \<and>
         candidates_of (Some url) eps = [url]"
proof -
  have p: "payload (Response st content (Some data)) \<noteq> None"
    using assms(2,3,4) truthy_data_member by (simp add: payload_def ok_def)
  have k: "fst (snd (poll_candidates net apiKey rest (Some url) w')) = Some url"
    using poll_candidates_keeps_working[of "Some url"] assms(6) by simp
  show ?thesis using assms(1,5,6) p k
    by (auto simp: poll_step_eq split: prod.splits option.splits outcome.splits)
qed

theorem pinned_on_truthy_data_without_status_witness:
  "opt_member (opt_member (JObj [(''data'', JObj [])]) ''data'') ''status'' = JUndef \<and>
   fst (snd (poll_candidates bare_data_net ''k'' (endpoints ''T1'') None ())) =
     Some (FREEPIK_API_URL @ ''/T1'')"
  using pinned_on_truthy_data_without_status
          [where net = bare_data_net and w = "()" and w' = "()"
             and url = "FREEPIK_API_URL @ ''/T1''" and apiKey = "''k''" and st = 200
             and content = "[]" and data = "JObj [(''data'', JObj [])]" and working = None
             and rest = "tl (endpoints ''T1'')" and eps = "[]"]
  by (simp add: bare_data_net_def endpoints_def FREEPIK_API_URL_def)

section \<open>The handler: lemmas\<close>

lemma isl_sequence_exn: "isl (sequence_exn rs) = (\<exists>r \<in> set rs. isl r)"
  by (induction rs rule: sequence_exn.induct) (auto split: sum.splits)

lemma isl_sequence_map: "isl (sequence_exn (map f xs)) = (\<exists>x \<in> set xs. isl (f x))"
  by (simp add: isl_sequence_exn)

lemma to_string_throws_iff: "isl (js_to_string fmt v) = (\<not> stringable v)"
proof (induction fmt v rule: js_to_string.induct)
  case (6 fmt xs)
  have "isl (js_to_string fmt (JArr xs)) =
        isl (sequence_exn (map (\<lambda>x. if nullish x then Inr [] else js_to_string fmt x) xs))"
    by (simp split: sum.splits)
  also have "\<dots> = (\<exists>x \<in> set xs. isl (if nullish x then Inr [] else js_to_string fmt x))"
    by (rule isl_sequence_map)
  also have "\<dots> = (\<exists>x \<in> set xs. \<not> nullish x \<and> \<not> stringable x)"
    using 6 by (auto split: if_splits)
  finally show ?case by auto
qed simp_all

lemma to_string_stringable: "stringable v \<Longrightarrow> \<exists>s. js_to_string fmt v = Inr s"
  using to_string_throws_iff[of fmt v] by (cases "js_to_string fmt v") auto

lemma truthy_string: "truthy v \<Longrightarrow> substring_ok v \<Longrightarrow> \<exists>p. v = JStr p \<and> p \<noteq> []"
  by (cases v) (auto simp: substring_ok_def)

lemma generate_submitted:
  assumes "key = Some apiKey" "apiKey \<noteq> []" "prompt_of reqBody = JStr p" "p \<noteq> []"
    and "stringable (aspect_ratio_of reqBody)"
  shows "generate net fmt key reqBody w =
     (case net w (submission apiKey reqBody) of
        (NetworkError, w') \<Rightarrow> (catch_reply FetchError, w', [submission apiKey reqBody])
      | (Response st txt parsed, w') \<Rightarrow>
          if \<not> ok st then
            (if st = 429 then ((429, QuotaBody quota_message), w', [submission apiKey reqBody])
             else ((502, ErrorBody (''Freepik error '' @ dec st @ '': '' @ txt)), w',
                   [submission apiKey reqBody]))
          else
            (case parsed of
               None \<Rightarrow> (catch_reply SyntaxError, w', [submission apiKey reqBody])
             | Some result \<Rightarrow>
                 (case on_result net fmt apiKey result w' of
                    (rep, w'', rqs) \<Rightarrow> (rep, w'', submission apiKey reqBody # rqs))))"
  using assms unfolding generate_def
  by (simp add: substring_ok_def)

lemma generate_first_request:
  assumes "generate net fmt key reqBody w = (rep, w', rq # rqs)"
  shows "\<exists>apiKey p. key = Some apiKey \<and> apiKey \<noteq> [] \<and> prompt_of reqBody = JStr p \<and> p \<noteq> [] \<and>
           stringable (aspect_ratio_of reqBody) \<and> rq = submission apiKey reqBody"
proof (cases key)
  case None
  with assms show ?thesis by (simp add: generate_def)
next
  case (Some apiKey)
  show ?thesis
  proof (cases "apiKey = [] \<or> \<not> truthy (prompt_of reqBody) \<or> \<not> substring_ok (prompt_of reqBody) \<or>
                \<not> stringable (aspect_ratio_of reqBody)")
    case True
    with assms Some show ?thesis by (auto simp: generate_def split: if_splits)
  next
    case False
    then obtain p where p: "prompt_of reqBody = JStr p" "p \<noteq> []"
      using truthy_string by blast
    from False have k: "apiKey \<noteq> []" and a: "stringable (aspect_ratio_of reqBody)" by simp_all
    from assms have "rq = submission apiKey reqBody"
      unfolding generate_submitted[OF Some k p a]
      by (auto split: prod.splits fetch_result.splits if_splits option.splits)
    with Some k p a show ?thesis by blast
  qed
qed

lemma on_result_direct:
  assumes "stringable (opt_member (opt_member result ''data'') ''task_id'')"
    and "stringable (opt_member (opt_member result ''data'') ''status'')"
    and "\<not> is_task_handle result"
  shows "on_result net fmt apiKey result w =
     (if truthy (direct_of result) \<and> \<not> substring_ok (direct_of result)
      then (catch_reply TypeError, w, [])
      else ((200, UrlBody (direct_of result)), w, []))"
proof -
  from to_string_stringable[OF assms(1)] obtain s where
    "js_to_string fmt (opt_member (opt_member result ''data'') ''task_id'') = Inr s" by blast
  with assms(2,3) show ?thesis by (simp add: on_result_def)
qed

lemma answered_with_json:
  assumes "generate net fmt key reqBody w = (rep, w', rq # rqs)"
    and "net w rq = (Response st content (Some result), w1)" "ok st"
    and "stringable (opt_member (opt_member result ''data'') ''task_id'')"
    and "stringable (opt_member (opt_member result ''data'') ''status'')"
    and "\<not> is_task_handle result"
    and "\<not> (truthy (direct_of result) \<and> \<not> substring_ok (direct_of result))"
  shows "rep = (200, UrlBody (direct_of result)) \<and> w' = w1 \<and> rqs = []"
proof -
  from generate_first_request[OF assms(1)] obtain apiKey p where
    h: "key = Some apiKey" "apiKey \<noteq> []" "prompt_of reqBody = JStr p" "p \<noteq> []"
       "stringable (aspect_ratio_of reqBody)" "rq = submission apiKey reqBody"
    by blast
  from assms(1) show ?thesis
    unfolding generate_submitted[OF h(1-5)]
    using assms(2,3,7) h(6) by (auto simp: on_result_direct[OF assms(4,5,6)] split: if_splits)
qed

lemma prompt_of_cat_request: "prompt_of cat_request = JStr ''cat''"
  by (simp add: prompt_of_def cat_request_def or_js_def)

section \<open>The handler: claims\<close>

text \<open>
  Claim C10. The credential check comes before the prompt check: a request that lacks both
  the provider API key and the prompt is answered 400 with
  'Freepik API key missing on server', not with the prompt error, and no request is made
  to the provider.
\<close>

theorem credential_check_precedes_prompt_check:
  "key = None \<or> key = Some [] \<Longrightarrow> \<not> truthy (prompt_of reqBody) \<Longrightarrow>
   generate net fmt key reqBody w =
     ((400, ErrorBody ''Freepik API key missing on server''), w, []) \<and>
   fst (generate net fmt key reqBody w) \<noteq> (400, ErrorBody ''prompt required'')"
  by (auto simp: generate_def)

theorem credential_check_precedes_prompt_check_witness:
  "\<not> truthy (prompt_of (JObj [])) \<and>
   generate silent_net no_fmt None (JObj []) () =
     ((400, ErrorBody ''Freepik API key missing on server''), (), [])"
  using credential_check_precedes_prompt_check
          [where key = None and reqBody = "JObj []" and net = silent_net and fmt = no_fmt and w = "()"]
  by (simp add: prompt_of_def or_js_def)

text \<open>
  Claim C4, as stated: every request without a prompt fails with the validation error and
  no provider call. It fails where the API key is missing too: the reply is then the
  configuration error.
\<close>

theorem missing_prompt_without_key_counterexample:
  "\<not> truthy (prompt_of (JObj [])) \<and>
   fst (generate silent_net no_fmt None (JObj []) ()) \<noteq> (400, ErrorBody ''prompt required'')"
  by (simp add: prompt_of_def or_js_def generate_def)

text \<open>
  Claim C4, amended. A request whose prompt is missing or empty (falsy) makes no request to
  the provider. The reply is the configuration error when the API key is not configured,
  and 400 'prompt required' when it is and \<^verbatim>\<open>aspect_ratio\<close>, present or not, converts
  to text.
\<close>

theorem missing_prompt_makes_no_provider_call:
  "\<not> truthy (prompt_of reqBody) \<Longrightarrow>
   snd (generate net fmt key reqBody w) = (w, []) \<and>
   (key = None \<or> key = Some [] \<longrightarrow>
      fst (generate net fmt key reqBody w) =
        (400, ErrorBody ''Freepik API key missing on server'')) \<and>
   (key \<noteq> None \<and> key \<noteq> Some [] \<and> stringable (aspect_ratio_of reqBody) \<longrightarrow>
      fst (generate net fmt key reqBody w) = (400, ErrorBody ''prompt required''))"
  by (auto simp: generate_def split: option.splits)

theorem missing_prompt_makes_no_provider_call_witness:
  "\<not> truthy (prompt_of (JObj [(''prompt'', JStr [])])) \<and>
   generate silent_net no_fmt (Some ''k'') (JObj [(''prompt'', JStr [])]) () =
     ((400, ErrorBody ''prompt required''), (), [])"
proof -
  have a: "\<not> truthy (prompt_of (JObj [(''prompt'', JStr [])]))" by code_simp
  have b: "stringable (aspect_ratio_of (JObj [(''prompt'', JStr [])]))" by code_simp
  show ?thesis
    using missing_prompt_makes_no_provider_call
            [OF a, where net = silent_net and fmt = no_fmt and key = "Some ''k''" and w = "()"]
          a b
    by (simp add: prod_eq_iff)
qed

text \<open>
  Claim C5. Whenever the handler has sent its submission and the provider answered it
  with HTTP 429, whatever the body, the reply is 429 with the remediation message and
  \<^verbatim>\<open>quota_exceeded: true\<close>; it is not the generic 502 provider error, and nothing further
  is requested.
\<close>

theorem quota_exceeded_on_429:
  assumes "generate net fmt key reqBody w = (rep, w', rq # rqs)"
    and "net w rq = (Response 429 content parsed, w1)"
  shows "rep = (429, QuotaBody ''Freepik API quota exceeded (free trial limit reached). Upgrade your plan or use a new API key.'') \<and>
         rep \<noteq> (502, ErrorBody (''Freepik error 429: '' @ content)) \<and>
         rqs = [] \<and> w' = w1 \<and>
         (\<exists>apiKey. key = Some apiKey \<and> rq = submission apiKey reqBody)"
proof -
  from generate_first_request[OF assms(1)] obtain apiKey p where
    h: "key = Some apiKey" "apiKey \<noteq> []" "prompt_of reqBody = JStr p" "p \<noteq> []"
       "stringable (aspect_ratio_of reqBody)" "rq = submission apiKey reqBody"
    by blast
  from assms(1) have "rep = (429, QuotaBody quota_message) \<and> rqs = [] \<and> w' = w1"
    unfolding generate_submitted[OF h(1-5)] using assms(2) h(6) by (simp add: ok_def)
  with h(1,6) show ?thesis by (simp add: quota_message_def)
qed

theorem quota_exceeded_on_429_witness:
  "fst (generate quota_net no_fmt (Some ''k'') cat_request ()) =
     (429, QuotaBody ''Freepik API quota exceeded (free trial limit reached). Upgrade your plan or use a new API key.'')"
proof -
  have eq: "generate quota_net no_fmt (Some ''k'') cat_request () =
      (fst (generate quota_net no_fmt (Some ''k'') cat_request ()), (),
       submission ''k'' cat_request # [])"
    by code_simp
  have r: "quota_net () (submission ''k'' cat_request) =
      (Response 429 ''slow down''
         (Some (JObj [(''data'', JObj [(''url'', JStr ''https://x/a.png'')])])), ())"
    by (simp add: quota_net_def)
  show ?thesis using quota_exceeded_on_429[OF eq r] by simp
qed

text \<open>
  Claim C7, as stated: a 2xx submission response with an embedded url is answered with
  exactly that url and the poller is not invoked. It fails where the same body is a task
  handle as well: the handle is looked at first, the poller runs, and its result is sent.
\<close>

theorem task_handle_takes_precedence_counterexample:
  "fst (handle_and_url_net () (submission ''k'' cat_request)) =
     Response 200 [] (Some (JObj [(''data'', JObj [(''task_id'', JStr ''T1''),
        (''status'', JStr ''CREATED''), (''url'', JStr ''https://x/a.png'')])])) \<and>
   generate handle_and_url_net no_fmt (Some ''k'') cat_request () =
     ((200, UrlBody (JStr ''https://x/b.png'')), (),
      [submission ''k'' cat_request, GET (FREEPIK_API_URL @ ''/T1'') ''k''])"
  by code_simp

text \<open>
  Claim C7, amended. Whenever the handler has sent its submission and the provider
  answered 2xx with a JSON body in which \<^verbatim>\<open>data.task_id\<close> and \<^verbatim>\<open>data.status\<close> convert to
  text, which is not a task handle (a truthy task_id with status CREATED), and in which
  the first truthy one of data.url, data.image_url and the top-level url, in this order,
  is a string: the reply is 200 with exactly that string as url, and the submission is
  the only request made, so the poller is not invoked.
\<close>

theorem embedded_result_round_trip:
  assumes "generate net fmt key reqBody w = (rep, w', rq # rqs)"
    and "net w rq = (Response st content (Some result), w1)" "200 \<le> st \<and> st \<le> 299"
    and "stringable (opt_member (opt_member result ''data'') ''task_id'')"
    and "stringable (opt_member (opt_member result ''data'') ''status'')"
    and "\<not> (truthy (opt_member (opt_member result ''data'') ''task_id'') \<and>
            opt_member (opt_member result ''data'') ''status'' = JStr ''CREATED'')"
    and "u \<noteq> []"
    and "opt_member (opt_member result ''data'') ''url'' = JStr u \<or>
         \<not> truthy (opt_member (opt_member result ''data'') ''url'') \<and>
           opt_member (opt_member result ''data'') ''image_url'' = JStr u \<or>
         \<not> truthy (opt_member (opt_member result ''data'') ''url'') \<and>
           \<not> truthy (opt_member (opt_member result ''data'') ''image_url'') \<and>
           opt_member result ''url'' = JStr u"
  shows "rep = (200, UrlBody (JStr u)) \<and> rqs = [] \<and> w' = w1"
proof -
  have d: "direct_of result = JStr u"
    using assms(7,8) by (auto simp: direct_of_def or_js_def)
  have t: "\<not> is_task_handle result" using assms(6) by (simp add: is_task_handle_def)
  have k: "ok st" using assms(3) by (simp add: ok_def)
  from answered_with_json[OF assms(1,2) k assms(4,5) t] d show ?thesis
    by (simp add: substring_ok_def)
qed

theorem embedded_result_round_trip_witness:
  "generate image_url_net no_fmt (Some ''k'') cat_request () =
     ((200, UrlBody (JStr ''https://x/a.png'')), (), [submission ''k'' cat_request])"
proof -
  have eq: "generate image_url_net no_fmt (Some ''k'') cat_request () =
      (fst (generate image_url_net no_fmt (Some ''k'') cat_request ()), (),
       submission ''k'' cat_request # tl (snd (snd (generate image_url_net no_fmt (Some ''k'') cat_request ()))))"
    by code_simp
  have r: "image_url_net () (submission ''k'' cat_request) = (Response 200 [] (Some embedded_body), ())"
    by (simp add: image_url_net_def)
  have k: "(200::nat) \<le> 200 \<and> (200::nat) \<le> 299" by simp
  have a: "stringable (opt_member (opt_member embedded_body ''data'') ''task_id'')" by code_simp
  have b: "stringable (opt_member (opt_member embedded_body ''data'') ''status'')" by code_simp
  have c: "\<not> (truthy (opt_member (opt_member embedded_body ''data'') ''task_id'') \<and>
            opt_member (opt_member embedded_body ''data'') ''status'' = JStr ''CREATED'')"
    by code_simp
  have n: "''https://x/a.png'' \<noteq> []" by simp
  have f: "opt_member (opt_member embedded_body ''data'') ''url'' = JStr ''https://x/a.png'' \<or>
         \<not> truthy (opt_member (opt_member embedded_body ''data'') ''url'') \<and>
           opt_member (opt_member embedded_body ''data'') ''image_url'' = JStr ''https://x/a.png'' \<or>
         \<not> truthy (opt_member (opt_member embedded_body ''data'') ''url'') \<and>
           \<not> truthy (opt_member (opt_member embedded_body ''data'') ''image_url'') \<and>
           opt_member embedded_body ''url'' = JStr ''https://x/a.png''"
    by code_simp
  show ?thesis
    using embedded_result_round_trip[OF eq r k a b c n f] eq by simp
qed

text \<open>
  Claim C8, as stated: every 2xx submission response with neither a task handle nor an
  embedded result is answered 200 with a null url. It fails where the 2xx body is not
  JSON: it holds neither, \<^verbatim>\<open>resp.json()\<close> throws, and the reply is 500.
\<close>

theorem unparsable_body_counterexample:
  "plain_text_net () (submission ''k'' cat_request) = (Response 200 ''OK'' None, ()) \<and>
   generate plain_text_net no_fmt (Some ''k'') cat_request () =
     ((500, ExnBody SyntaxError), (), [submission ''k'' cat_request])"
  by code_simp

text \<open>
  Claim C8, amended. Whenever the handler has sent its submission and the provider
  answered 2xx with a JSON body in which \<^verbatim>\<open>data.task_id\<close> and \<^verbatim>\<open>data.status\<close> convert to
  text, which is not a task handle (a truthy task_id with status CREATED) and in which
  data.url, data.image_url and the top-level url are all absent or falsy: the reply is 200
  with \<^verbatim>\<open>{ url: null }\<close>, a success and not an error, and nothing further is requested.
\<close>

theorem neither_shape_gives_null_url:
  assumes "generate net fmt key reqBody w = (rep, w', rq # rqs)"
    and "net w rq = (Response st content (Some result), w1)" "200 \<le> st \<and> st \<le> 299"
    and "stringable (opt_member (opt_member result ''data'') ''task_id'')"
    and "stringable (opt_member (opt_member result ''data'') ''status'')"
    and "\<not> (truthy (opt_member (opt_member result ''data'') ''task_id'') \<and>
            opt_member (opt_member result ''data'') ''status'' = JStr ''CREATED'')"
    and "\<not> truthy (opt_member (opt_member result ''data'') ''url'')"
    and "\<not> truthy (opt_member (opt_member result ''data'') ''image_url'')"
    and "\<not> truthy (opt_member result ''url'')"
  shows "rep = (200, UrlBody JNull) \<and> rqs = [] \<and> w' = w1"
proof -
  have d: "direct_of result = JNull"
    using assms(7,8,9) by (simp add: direct_of_def or_js_def)
  have t: "\<not> is_task_handle result" using assms(6) by (simp add: is_task_handle_def)
  have k: "ok st" using assms(3) by (simp add: ok_def)
  from answered_with_json[OF assms(1,2) k assms(4,5) t] d show ?thesis by simp
qed

theorem neither_shape_gives_null_url_witness:
  "generate empty_object_net no_fmt (Some ''k'') cat_request () =
     ((200, UrlBody JNull), (), [submission ''k'' cat_request])"
proof -
  have eq: "generate empty_object_net no_fmt (Some ''k'') cat_request () =
      (fst (generate empty_object_net no_fmt (Some ''k'') cat_request ()), (),
       submission ''k'' cat_request # tl (snd (snd (generate empty_object_net no_fmt (Some ''k'') cat_request ()))))"
    by code_simp
  have r: "empty_object_net () (submission ''k'' cat_request) = (Response 200 [] (Some (JObj [])), ())"
    by (simp add: empty_object_net_def)
  have k: "(200::nat) \<le> 200 \<and> (200::nat) \<le> 299" by simp
  have a: "stringable (opt_member (opt_member (JObj []) ''data'') ''task_id'')" by code_simp
  have b: "stringable (opt_member (opt_member (JObj []) ''data'') ''status'')" by code_simp
  have c: "\<not> (truthy (opt_member (opt_member (JObj []) ''data'') ''task_id'') \<and>
            opt_member (opt_member (JObj []) ''data'') ''status'' = JStr ''CREATED'')"
    by code_simp
  have u1: "\<not> truthy (opt_member (opt_member (JObj []) ''data'') ''url'')" by code_simp
  have u2: "\<not> truthy (opt_member (opt_member (JObj []) ''data'') ''image_url'')" by code_simp
  have u3: "\<not> truthy (opt_member (JObj []) ''url'')" by code_simp
  show ?thesis
    using neither_shape_gives_null_url[OF eq r k a b c u1 u2 u3] eq by simp
qed

end
